theory Spec2Isabelle
  imports Complex_Main "HOL-Library.Word" "HOL-Library.Char_ord" "HOL-Library.List_Lexorder"
begin

unbundle bit_operations_syntax

section \<open>Values of the platform\<close>

text \<open>
  A \<open>Uint8Array\<close> is a list of bytes. A JavaScript string is a \<open>string\<close>, one
  \<open>char\<close> per code unit, which covers the code units U+0000 to U+00FF; the order
  \<open>(<)\<close> on strings (Char_ord, List_Lexorder) is the code-unit order that the
  operator \<open><\<close> of the language uses on strings. A property that may be absent,
  \<open>null\<close> or present is a \<open>jsval\<close>.
\<close>

type_synonym byte = "8 word"
type_synonym bytes = "byte list"

datatype 'a jsval = Undefined | Null | Val 'a

section \<open>crypto.js: hexadecimal strings\<close>

definition hexdigit :: "nat \<Rightarrow> char" where
  "hexdigit n = ''0123456789abcdef'' ! n"

text \<open>\<open>Number.prototype.toString(16)\<close> on a natural number.\<close>

fun toString16 :: "nat \<Rightarrow> string" where
  "toString16 n = (if n < 16 then [hexdigit n] else toString16 (n div 16) @ [hexdigit (n mod 16)])"

declare toString16.simps [simp del]

definition padStart :: "nat \<Rightarrow> char \<Rightarrow> string \<Rightarrow> string" where
  "padStart n c s = replicate (n - length s) c @ s"

definition bytesToHex :: "bytes \<Rightarrow> string" where
  "bytesToHex bs = concat (map (\<lambda>b. padStart 2 CHR ''0'' (toString16 (unat b))) bs)"

text \<open>
  \<open>parseInt(s, 16)\<close>: leading white space is skipped, then an optional sign, then an
  optional \<open>0x\<close> or \<open>0X\<close>; the longest run of hexadecimal digits that follows is the
  value, and \<open>NaN\<close> (here \<open>None\<close>) when that run is empty.
\<close>

definition isWhiteSpace :: "char \<Rightarrow> bool" where
  "isWhiteSpace c = (of_char c \<in> {9, 10, 11, 12, 13, 32, 160 :: nat})"

definition hexval :: "char \<Rightarrow> nat option" where
  "hexval c =
     (let n = (of_char c :: nat) in
      if 48 \<le> n \<and> n \<le> 57 then Some (n - 48)
      else if 97 \<le> n \<and> n \<le> 102 then Some (n - 87)
      else if 65 \<le> n \<and> n \<le> 70 then Some (n - 55)
      else None)"

definition parseInt16 :: "string \<Rightarrow> int option" where
  "parseInt16 s =
     (let s1 = dropWhile isWhiteSpace s;
          sgn = (case s1 of c # _ \<Rightarrow> if c = CHR ''-'' then - 1 else 1 | [] \<Rightarrow> (1 :: int));
          s2 = (case s1 of c # r \<Rightarrow> if c = CHR ''-'' \<or> c = CHR ''+'' then r else s1 | [] \<Rightarrow> s1);
          s3 = (case s2 of c # d # r \<Rightarrow>
                  if c = CHR ''0'' \<and> (d = CHR ''x'' \<or> d = CHR ''X'') then r else s2
                | _ \<Rightarrow> s2);
          ds = takeWhile (\<lambda>c. hexval c \<noteq> None) s3
      in if ds = [] then None
         else Some (sgn * int (foldl (\<lambda>a c. 16 * a + the (hexval c)) 0 ds)))"

text \<open>Storing a number into a \<open>Uint8Array\<close>: \<open>NaN\<close> is 0, the rest is taken modulo 256.\<close>

definition toUint8 :: "int option \<Rightarrow> byte" where
  "toUint8 v = (case v of None \<Rightarrow> 0 | Some i \<Rightarrow> word_of_int i)"

definition substr :: "nat \<Rightarrow> nat \<Rightarrow> string \<Rightarrow> string" where
  "substr start len s = take len (drop start s)"

definition hexToBytes :: "string \<Rightarrow> bytes" where
  "hexToBytes hex = map (\<lambda>i. toUint8 (parseInt16 (substr (i * 2) 2 hex))) [0..<length hex div 2]"

section \<open>The digest of the platform\<close>

text \<open>
  \<open>crypto.subtle.digest('SHA-256', bytes)\<close> is SHA-256: the message is padded to a
  multiple of 64 bytes, and each block of 16 big-endian words is expanded to 64 words and
  run through 64 rounds.
\<close>

type_synonym w32 = "32 word"

definition sha256_K :: "w32 list" where
  "sha256_K =
    [1116352408, 1899447441, 3049323471, 3921009573, 961987163, 1508970993,
     2453635748, 2870763221, 3624381080, 310598401, 607225278, 1426881987,
     1925078388, 2162078206, 2614888103, 3248222580, 3835390401, 4022224774,
     264347078, 604807628, 770255983, 1249150122, 1555081692, 1996064986,
     2554220882, 2821834349, 2952996808, 3210313671, 3336571891, 3584528711,
     113926993, 338241895, 666307205, 773529912, 1294757372, 1396182291,
     1695183700, 1986661051, 2177026350, 2456956037, 2730485921, 2820302411,
     3259730800, 3345764771, 3516065817, 3600352804, 4094571909, 275423344,
     430227734, 506948616, 659060556, 883997877, 958139571, 1322822218,
     1537002063, 1747873779, 1955562222, 2024104815, 2227730452, 2361852424,
     2428436474, 2756734187, 3204031479, 3329325298]"

record sha256_state =
  ha :: w32
  hb :: w32
  hc :: w32
  hd' :: w32
  he :: w32
  hf :: w32
  hg :: w32
  hh :: w32

definition sha256_init :: sha256_state where
  "sha256_init = \<lparr>ha = 1779033703, hb = 3144134277, hc = 1013904242, hd' = 2773480762,
     he = 1359893119, hf = 2600822924, hg = 528734635, hh = 1541459225\<rparr>"

definition rotr :: "nat \<Rightarrow> w32 \<Rightarrow> w32" where
  "rotr n x = drop_bit n x OR push_bit (32 - n) x"

definition be32 :: "bytes \<Rightarrow> w32" where
  "be32 bs = foldl (\<lambda>a b. push_bit 8 a OR ucast b) 0 bs"

definition bytes_of_w32 :: "w32 \<Rightarrow> bytes" where
  "bytes_of_w32 w = [ucast (drop_bit 24 w), ucast (drop_bit 16 w), ucast (drop_bit 8 w), ucast w]"

definition bytes_of_len :: "nat \<Rightarrow> bytes" where
  "bytes_of_len n =
     (let w = (word_of_nat (8 * n) :: 64 word)
      in map (\<lambda>i. ucast (drop_bit (8 * (7 - i)) w)) [0..<8])"

definition sha256_pad :: "bytes \<Rightarrow> bytes" where
  "sha256_pad m = m @ [128] @ replicate ((64 - (length m + 9) mod 64) mod 64) 0 @ bytes_of_len (length m)"

fun sha256_words :: "nat \<Rightarrow> bytes \<Rightarrow> w32 list" where
  "sha256_words 0 bs = []"
| "sha256_words (Suc n) bs = be32 (take 4 bs) # sha256_words n (drop 4 bs)"

fun sha256_schedule :: "nat \<Rightarrow> w32 list \<Rightarrow> w32 list" where
  "sha256_schedule 0 w = w"
| "sha256_schedule (Suc n) w =
     (let k = length w;
          x = w ! (k - 15);
          y = w ! (k - 2);
          s0 = rotr 7 x XOR rotr 18 x XOR drop_bit 3 x;
          s1 = rotr 17 y XOR rotr 19 y XOR drop_bit 10 y
      in sha256_schedule n (w @ [w ! (k - 16) + s0 + w ! (k - 7) + s1]))"

definition sha256_round :: "sha256_state \<Rightarrow> w32 \<times> w32 \<Rightarrow> sha256_state" where
  "sha256_round s kw =
     (let S1 = rotr 6 (he s) XOR rotr 11 (he s) XOR rotr 25 (he s);
          ch = (he s AND hf s) XOR (NOT (he s) AND hg s);
          t1 = hh s + S1 + ch + fst kw + snd kw;
          S0 = rotr 2 (ha s) XOR rotr 13 (ha s) XOR rotr 22 (ha s);
          mj = (ha s AND hb s) XOR (ha s AND hc s) XOR (hb s AND hc s);
          t2 = S0 + mj
      in \<lparr>ha = t1 + t2, hb = ha s, hc = hb s, hd' = hc s,
          he = hd' s + t1, hf = he s, hg = hf s, hh = hg s\<rparr>)"

definition sha256_block :: "sha256_state \<Rightarrow> bytes \<Rightarrow> sha256_state" where
  "sha256_block s blk =
     (let w = sha256_schedule 48 (sha256_words 16 blk);
          t = foldl sha256_round s (zip sha256_K w)
      in \<lparr>ha = ha s + ha t, hb = hb s + hb t, hc = hc s + hc t, hd' = hd' s + hd' t,
          he = he s + he t, hf = hf s + hf t, hg = hg s + hg t, hh = hh s + hh t\<rparr>)"

fun sha256_blocks :: "nat \<Rightarrow> sha256_state \<Rightarrow> bytes \<Rightarrow> sha256_state" where
  "sha256_blocks 0 s bs = s"
| "sha256_blocks (Suc n) s bs = sha256_blocks n (sha256_block s (take 64 bs)) (drop 64 bs)"

definition sha256 :: "bytes \<Rightarrow> bytes" where
  "sha256 m =
     (let p = sha256_pad m;
          s = sha256_blocks (length p div 64) sha256_init p
      in bytes_of_w32 (ha s) @ bytes_of_w32 (hb s) @ bytes_of_w32 (hc s) @ bytes_of_w32 (hd' s) @
         bytes_of_w32 (he s) @ bytes_of_w32 (hf s) @ bytes_of_w32 (hg s) @ bytes_of_w32 (hh s))"

section \<open>crypto.js: the signing message and the key derivation\<close>

text \<open>
  \<open>String.prototype.toLowerCase\<close> on the code units U+0000 to U+00FF: the letters A to Z
  and the capital letters of U+00C0 to U+00DE (U+00D7, the multiplication sign, is not a
  letter) move up by 32. \<open>String.prototype.trim\<close> removes white space at both ends.
\<close>

definition lowerChar :: "char \<Rightarrow> char" where
  "lowerChar c =
     (let n = (of_char c :: nat)
      in if (65 \<le> n \<and> n \<le> 90) \<or> (192 \<le> n \<and> n \<le> 214) \<or> (216 \<le> n \<and> n \<le> 222)
         then char_of (n + 32) else c)"

definition toLowerCase :: "string \<Rightarrow> string" where
  "toLowerCase s = map lowerChar s"

definition trim :: "string \<Rightarrow> string" where
  "trim s = rev (dropWhile isWhiteSpace (rev (dropWhile isWhiteSpace s)))"

text \<open>\<open>new TextEncoder().encode(s)\<close>: UTF-8, two bytes for a code unit from U+0080 on.\<close>

definition utf8 :: "char \<Rightarrow> bytes" where
  "utf8 c =
     (let n = (of_char c :: nat)
      in if n < 128 then [word_of_nat n]
         else [word_of_nat (192 + n div 64), word_of_nat (128 + n mod 64)])"

definition encode :: "string \<Rightarrow> bytes" where
  "encode s = concat (map utf8 s)"

text \<open>
  \<open>JSON.stringify\<close> on a string: the quotation mark, the backslash and the control
  characters are escaped, every other code unit stands for itself.
\<close>

definition escapeChar :: "char \<Rightarrow> string" where
  "escapeChar c =
     (let n = (of_char c :: nat)
      in if n = 8 then [CHR 0x5C, CHR ''b'']
         else if n = 9 then [CHR 0x5C, CHR ''t'']
         else if n = 10 then [CHR 0x5C, CHR ''n'']
         else if n = 12 then [CHR 0x5C, CHR ''f'']
         else if n = 13 then [CHR 0x5C, CHR ''r'']
         else if n = 34 then [CHR 0x5C, CHR 0x22]
         else if n = 92 then [CHR 0x5C, CHR 0x5C]
         else if n < 32 then [CHR 0x5C, CHR ''u'', CHR ''0'', CHR ''0'', hexdigit (n div 16), hexdigit (n mod 16)]
         else [c])"

definition quoteJSON :: "string \<Rightarrow> string" where
  "quoteJSON s = CHR 0x22 # concat (map escapeChar s) @ [CHR 0x22]"

text \<open>
  \<open>JSON.stringify\<close> on an object whose properties are strings, in the order in which the
  object literal lists them.
\<close>

fun stringifyMembers :: "(string \<times> string) list \<Rightarrow> string" where
  "stringifyMembers [] = []"
| "stringifyMembers [(k, v)] = quoteJSON k @ '':'' @ quoteJSON v"
| "stringifyMembers ((k, v) # rest) = quoteJSON k @ '':'' @ quoteJSON v @ '','' @ stringifyMembers rest"

definition stringify :: "(string \<times> string) list \<Rightarrow> string" where
  "stringify members = ''{'' @ stringifyMembers members @ ''}''"

definition createSigningMessage :: "bytes \<Rightarrow> string \<Rightarrow> string \<Rightarrow> bytes" where
  "createSigningMessage documentHash email timestamp =
     (let message = stringify
            [(''documentHash'', bytesToHex documentHash),
             (''email'', trim (toLowerCase email)),
             (''timestamp'', timestamp),
             (''version'', ''ots-sign-v1'')]
      in encode message)"

definition PBKDF2_ITERATIONS :: nat where
  "PBKDF2_ITERATIONS = 100000"

definition SALT_PREFIX :: string where
  "SALT_PREFIX = ''ots-sign-v1:''"

record keypair =
  kp_publicKey :: bytes
  kp_secretKey :: bytes

text \<open>
  \<open>deriveKeypair\<close> calls PBKDF2 of the platform (\<open>deriveBits\<close>, with the password, the
  salt, the iteration count and the number of bits; the hash is SHA-256) and
  \<open>nacl.sign.keyPair.fromSeed\<close> of TweetNaCl. Both are functions of their arguments and
  are parameters here.
\<close>

definition deriveKeypair ::
  "(bytes \<Rightarrow> bytes \<Rightarrow> nat \<Rightarrow> nat \<Rightarrow> bytes) \<Rightarrow> (bytes \<Rightarrow> keypair) \<Rightarrow> string \<Rightarrow> string \<Rightarrow> keypair" where
  "deriveKeypair deriveBits fromSeed email password =
     (let normalizedEmail = trim (toLowerCase email);
          salt = encode (SALT_PREFIX @ normalizedEmail);
          passwordBytes = encode password;
          seed = deriveBits passwordBytes salt PBKDF2_ITERATIONS 256;
          keypair = fromSeed seed
      in \<lparr>kp_publicKey = kp_publicKey keypair, kp_secretKey = kp_secretKey keypair\<rparr>)"

section \<open>state.js: the Merkle module\<close>

text \<open>
  A hash passed to \<open>verifyProof\<close> is a hexadecimal string or a byte array
  (\<open>typeof x === 'string' ? Crypto.hexToBytes(x) : x\<close>).
\<close>

datatype hasharg = HexStr string | Bytes bytes

fun toBytes :: "hasharg \<Rightarrow> bytes" where
  "toBytes (HexStr s) = hexToBytes s"
| "toBytes (Bytes b) = b"

text \<open>\<open>hash\<close> on a byte array, as \<open>hashNodes\<close> calls it.\<close>

definition hash :: "bytes \<Rightarrow> bytes" where
  "hash data = sha256 data"

text \<open>The array \<open>combined\<close> that \<open>hashNodes\<close> fills and hashes.\<close>

definition combined :: "bytes \<Rightarrow> bytes \<Rightarrow> bytes" where
  "combined left right =
     (if bytesToHex left < bytesToHex right then left @ right else right @ left)"

definition hashNodes :: "bytes \<Rightarrow> bytes \<Rightarrow> bytes" where
  "hashNodes left right = hash (combined left right)"

text \<open>The \<open>for\<close> loop of \<open>buildTree\<close>: one layer from the one below, two nodes at a time.\<close>

fun nextLayer :: "bytes list \<Rightarrow> bytes list" where
  "nextLayer (a # b # rest) = hashNodes a b # nextLayer rest"
| "nextLayer [a] = [a]"
| "nextLayer [] = []"

record tree =
  root :: "bytes jsval"
  layers :: "bytes list list"

text \<open>The \<open>while\<close> loop of \<open>buildTree\<close>, on the variables \<open>layers\<close> and \<open>current\<close>.\<close>

function buildLoop :: "bytes list list \<Rightarrow> bytes list \<Rightarrow> bytes list list \<times> bytes list" where
  "buildLoop ls current =
     (if length current > 1
      then (let next = nextLayer current in buildLoop (ls @ [next]) next)
      else (ls, current))"
  by pat_completeness auto
termination
proof (relation "measure (\<lambda>(ls, current). length current)")
  show "wf (measure (\<lambda>(ls, current). length current))"
    by simp
next
  fix ls :: "bytes list list" and current upper :: "bytes list"
  assume long: "1 < length current" and up: "upper = nextLayer current"
  have "length (nextLayer xs) = (length xs + 1) div 2" for xs
    by (induction xs rule: nextLayer.induct) auto
  with long up show "((ls @ [upper], upper), (ls, current)) \<in> measure (\<lambda>(ls, current). length current)"
    by simp
qed

declare buildLoop.simps [simp del]

definition buildTree :: "bytes list \<Rightarrow> tree" where
  "buildTree leaves =
     (if length leaves = 0 then \<lparr>root = Null, layers = []\<rparr>
      else (let (ls, current) = buildLoop [leaves] leaves
            in \<lparr>root = (case current of [] \<Rightarrow> Undefined | r # _ \<Rightarrow> Val r), layers = ls\<rparr>))"

record proofstep =
  hash_of :: string
  position :: string



fun verifyLoop :: "bytes \<Rightarrow> proofstep list \<Rightarrow> bytes" where
  "verifyLoop current [] = current"
| "verifyLoop current (step # rest) =
     (let sibling = hexToBytes (hash_of step)
      in verifyLoop (if position step = ''left'' then hashNodes sibling current
                     else hashNodes current sibling) rest)"

definition verifyProof :: "hasharg \<Rightarrow> proofstep list \<Rightarrow> hasharg \<Rightarrow> bool" where
  "verifyProof leafHash proof rt =
     (bytesToHex (verifyLoop (toBytes leafHash) proof) = bytesToHex (toBytes rt))"




section \<open>bundle.js: the bundle and its operations\<close>

record document =
  doc_name :: string
  doc_size :: nat
  doc_data :: string

record signer =
  s_id :: string
  s_name :: string
  s_email :: string
  s_color :: string
  signed :: bool
  signedAt :: "string jsval"
  publicKey :: "string jsval"
  signatureImage :: "string jsval"
  cryptoSignature :: "string jsval"

record field =
  f_id :: string
  f_type :: string
  f_signerId :: string
  f_page :: nat
  f_x :: rat
  f_y :: rat
  f_width :: rat
  f_height :: rat
  f_required :: bool
  f_value :: "string jsval"
  f_signatureData :: "string jsval"

record ots_bundle =
  version :: string
  created :: string
  modified :: string
  document :: document
  signers :: "signer list"
  fields_of :: "field list"
  status :: string
  completedDocument :: "(string \<times> string) jsval"
  timestamp :: "string jsval"

text \<open>
  The operations change the bundle in place; here each returns the bundle it leaves. The
  clock (\<open>new Date().toISOString()\<close>, \<open>Date.now()\<close> as a decimal string) and
  \<open>Math.random().toString(36)\<close> are arguments.
\<close>

definition VERSION :: string where
  "VERSION = ''1.0''"

definition create :: "string \<Rightarrow> nat \<Rightarrow> string \<Rightarrow> string \<Rightarrow> ots_bundle" where
  "create pdfName pdfSize base64 now =
     \<lparr>version = VERSION, created = now, modified = now,
      document = \<lparr>doc_name = pdfName, doc_size = pdfSize, doc_data = base64\<rparr>,
      signers = [], fields_of = [], status = ''draft'',
      completedDocument = Null, timestamp = Null\<rparr>"

definition colors :: "string list" where
  "colors = [''#e63946'', ''#457b9d'', ''#2a9d8f'', ''#e9c46a'', ''#9b5de5'', ''#f72585'']"

text \<open>The object literal of \<open>addSigner\<close> has no property \<open>cryptoSignature\<close>.\<close>

definition addSigner :: "ots_bundle \<Rightarrow> string \<Rightarrow> string \<Rightarrow> string \<Rightarrow> string \<Rightarrow> ots_bundle \<times> signer" where
  "addSigner bundle name email clock rnd =
     (let colorIndex = length (signers bundle) mod length colors;
          signer = \<lparr>s_id = ''s'' @ clock @ substr 2 5 rnd,
                    s_name = name,
                    s_email = trim (toLowerCase email),
                    s_color = colors ! colorIndex,
                    signed = False,
                    signedAt = Null,
                    publicKey = Null,
                    signatureImage = Null,
                    cryptoSignature = Undefined\<rparr>
      in (bundle\<lparr>signers := signers bundle @ [signer]\<rparr>, signer))"

definition removeSigner :: "ots_bundle \<Rightarrow> string \<Rightarrow> ots_bundle" where
  "removeSigner bundle signerId =
     bundle\<lparr>signers := filter (\<lambda>s. s_id s \<noteq> signerId) (signers bundle),
            fields_of := filter (\<lambda>f. f_signerId f \<noteq> signerId) (fields_of bundle)\<rparr>"

definition getDefaultWidth :: "string \<Rightarrow> rat" where
  "getDefaultWidth type =
     (if type = ''signature'' then 200 else if type = ''initials'' then 80
      else if type = ''date'' then 120 else if type = ''text'' then 150 else 100)"

definition getDefaultHeight :: "string \<Rightarrow> rat" where
  "getDefaultHeight type =
     (if type = ''signature'' then 60 else if type = ''initials'' then 40
      else if type = ''date'' then 20 else if type = ''text'' then 20 else 30)"

record fieldData =
  fd_type :: string
  fd_signerId :: string
  fd_page :: nat
  fd_x :: rat
  fd_y :: rat
  fd_width :: "rat jsval"
  fd_height :: "rat jsval"
  fd_required :: "bool jsval"

text \<open>\<open>a || b\<close> on a number that may be absent: 0, \<open>null\<close> and \<open>undefined\<close> give \<open>b\<close>.\<close>

definition orElse :: "rat jsval \<Rightarrow> rat \<Rightarrow> rat" where
  "orElse a b = (case a of Val v \<Rightarrow> if v = 0 then b else v | _ \<Rightarrow> b)"

definition addField :: "ots_bundle \<Rightarrow> fieldData \<Rightarrow> string \<Rightarrow> string \<Rightarrow> ots_bundle \<times> field" where
  "addField bundle fieldData clock rnd =
     (let field = \<lparr>f_id = ''f'' @ clock @ substr 2 5 rnd,
                   f_type = fd_type fieldData,
                   f_signerId = fd_signerId fieldData,
                   f_page = fd_page fieldData,
                   f_x = fd_x fieldData,
                   f_y = fd_y fieldData,
                   f_width = orElse (fd_width fieldData) (getDefaultWidth (fd_type fieldData)),
                   f_height = orElse (fd_height fieldData) (getDefaultHeight (fd_type fieldData)),
                   f_required = (fd_required fieldData \<noteq> Val False),
                   f_value = Null,
                   f_signatureData = Null\<rparr>
      in (bundle\<lparr>fields_of := fields_of bundle @ [field]\<rparr>, field))"

definition removeField :: "ots_bundle \<Rightarrow> string \<Rightarrow> ots_bundle" where
  "removeField bundle fieldId = bundle\<lparr>fields_of := filter (\<lambda>f. f_id f \<noteq> fieldId) (fields_of bundle)\<rparr>"

text \<open>
  \<open>xs.find(p)\<close> followed by an assignment to the object found: the first element that
  satisfies \<open>p\<close> is changed, and nothing is when there is none.
\<close>

fun assignFound :: "('a \<Rightarrow> bool) \<Rightarrow> ('a \<Rightarrow> 'a) \<Rightarrow> 'a list \<Rightarrow> 'a list" where
  "assignFound p f [] = []"
| "assignFound p f (x # xs) = (if p x then f x # xs else x # assignFound p f xs)"

text \<open>\<open>updates\<close> is the effect of \<open>Object.assign(field, updates)\<close> on the field.\<close>

definition updateField :: "ots_bundle \<Rightarrow> string \<Rightarrow> (field \<Rightarrow> field) \<Rightarrow> ots_bundle" where
  "updateField bundle fieldId updates =
     bundle\<lparr>fields_of := assignFound (\<lambda>f. f_id f = fieldId) updates (fields_of bundle)\<rparr>"

definition updateStatus :: "ots_bundle \<Rightarrow> ots_bundle" where
  "updateStatus bundle =
     (if length (signers bundle) = 0 then bundle\<lparr>status := ''draft''\<rparr>
      else if list_all signed (signers bundle) then bundle\<lparr>status := ''completed''\<rparr>
      else if list_ex signed (signers bundle) then bundle\<lparr>status := ''in_progress''\<rparr>
      else bundle\<lparr>status := ''draft''\<rparr>)"

record signatureData =
  sd_publicKey :: "string jsval"
  sd_signatureImage :: "string jsval"
  sd_cryptoSignature :: "string jsval"

definition markSignerSigned :: "ots_bundle \<Rightarrow> string \<Rightarrow> signatureData \<Rightarrow> string \<Rightarrow> ots_bundle" where
  "markSignerSigned bundle signerId signatureData now =
     updateStatus (bundle\<lparr>signers :=
       assignFound (\<lambda>s. s_id s = signerId)
         (\<lambda>signer. signer\<lparr>signed := True,
                          signedAt := Val now,
                          publicKey := sd_publicKey signatureData,
                          signatureImage := sd_signatureImage signatureData,
                          cryptoSignature := sd_cryptoSignature signatureData\<rparr>)
         (signers bundle)\<rparr>)"

text \<open>
  The status that the specification gives a signer list: \<open>draft\<close> when the list is empty
  or nobody has signed, \<open>completed\<close> when it is not empty and everybody has, and
  \<open>in_progress\<close> when somebody has and somebody has not.
\<close>

definition transition :: "signer list \<Rightarrow> string" where
  "transition ss =
     (if ss = [] \<or> \<not> list_ex signed ss then ''draft''
      else if list_all signed ss then ''completed''
      else ''in_progress'')"

subsection \<open>Loading a bundle\<close>

text \<open>
  The value that \<open>JSON.parse\<close> returns. A number is its numeric value (0 for both zeros);
  an object is its properties, each name once.
\<close>

datatype json = JNull | JBool bool | JNum rat | JStr string | JArr "json list"
  | JObj "(string \<times> json) list"

datatype error = Error string | TypeError

text \<open>
  Reading a property: \<open>null\<close> has none and the read throws a \<open>TypeError\<close>; an object
  gives the value or \<open>undefined\<close>; a boolean, a number, a string and an array have
  none of the properties \<open>version\<close>, \<open>document\<close> and \<open>data\<close> that \<open>load\<close> reads.
\<close>

fun getProp :: "json \<Rightarrow> string \<Rightarrow> error + json jsval" where
  "getProp JNull k = Inl TypeError"
| "getProp (JObj ps) k = (case map_of ps k of None \<Rightarrow> Inr Undefined | Some v \<Rightarrow> Inr (Val v))"
| "getProp _ k = Inr Undefined"

fun truthy :: "json jsval \<Rightarrow> bool" where
  "truthy Undefined = False"
| "truthy Null = False"
| "truthy (Val JNull) = False"
| "truthy (Val (JBool b)) = b"
| "truthy (Val (JNum n)) = (n \<noteq> 0)"
| "truthy (Val (JStr s)) = (s \<noteq> [])"
| "truthy (Val (JArr xs)) = True"
| "truthy (Val (JObj ps)) = True"

text \<open>\<open>load\<close> after \<open>JSON.parse\<close>, on the parsed value.\<close>

definition load :: "json \<Rightarrow> error + json" where
  "load bundle =
     (case getProp bundle ''version'' of
        Inl e \<Rightarrow> Inl e
      | Inr v \<Rightarrow>
          if \<not> truthy v then Inl (Error ''Invalid bundle: missing version'')
          else (case getProp bundle ''document'' of
                  Inl e \<Rightarrow> Inl e
                | Inr d \<Rightarrow>
                    if \<not> truthy d then Inl (Error ''Invalid bundle: missing document'')
                    else (case d of
                            Val doc \<Rightarrow>
                              (case getProp doc ''data'' of
                                 Inl e \<Rightarrow> Inl e
                               | Inr x \<Rightarrow>
                                   if \<not> truthy x then Inl (Error ''Invalid bundle: missing document'')
                                   else Inr bundle)
                          | _ \<Rightarrow> Inl (Error ''Invalid bundle: missing document''))))"

text \<open>What the specification calls a bundle that has a field: the property is there.\<close>

definition hasField :: "json \<Rightarrow> string \<Rightarrow> bool" where
  "hasField j k = (case j of JObj ps \<Rightarrow> map_of ps k \<noteq> None | _ \<Rightarrow> False)"

text \<open>
  The value of a property where the read does not throw, and \<open>undefined\<close> where it does.
\<close>

definition lookup :: "json \<Rightarrow> string \<Rightarrow> json jsval" where
  "lookup j k = (case getProp j k of Inl e \<Rightarrow> Undefined | Inr v \<Rightarrow> v)"

text \<open>\<open>bundle.document.data\<close>, where \<open>bundle.document\<close> is a value that has properties.\<close>

definition documentData :: "json \<Rightarrow> json jsval" where
  "documentData j = (case lookup j ''document'' of Val doc \<Rightarrow> lookup doc ''data'' | _ \<Rightarrow> Undefined)"

text \<open>
  The bundles that the operations reach from a new one, each with the signer list that the
  last \<open>markSignerSigned\<close> left (the empty list before the first).
\<close>

inductive reach :: "ots_bundle \<Rightarrow> signer list \<Rightarrow> bool" where
  reach_create: "reach (create pdfName pdfSize base64 now) []"
| reach_markSignerSigned:
    "reach b ss \<Longrightarrow> b' = markSignerSigned b signerId signatureData now \<Longrightarrow> reach b' (signers b')"
| reach_addSigner: "reach b ss \<Longrightarrow> reach (fst (addSigner b name email clock rnd)) ss"
| reach_removeSigner: "reach b ss \<Longrightarrow> reach (removeSigner b signerId) ss"
| reach_addField: "reach b ss \<Longrightarrow> reach (fst (addField b fieldData clock rnd)) ss"
| reach_removeField: "reach b ss \<Longrightarrow> reach (removeField b fieldId) ss"
| reach_updateField: "reach b ss \<Longrightarrow> reach (updateField b fieldId updates) ss"

section \<open>Example inputs\<close>

definition ex_new :: ots_bundle where
  "ex_new = create ''contract.pdf'' 6 ''JVBERi0='' ''2024-01-01T00:00:00.000Z''"

definition ex_one :: ots_bundle where
  "ex_one = fst (addSigner ex_new ''Alice'' '' Alice@Example.COM '' ''1704067200000'' ''0.a1b2c3d4e5'')"

definition ex_two :: ots_bundle where
  "ex_two = fst (addSigner ex_one ''Bob'' ''bob@example.com'' ''1704067200001'' ''0.f6g7h8i9j0'')"

definition ex_sigdata :: signatureData where
  "ex_sigdata = \<lparr>sd_publicKey = Val ''ed25519:00'', sd_signatureImage = Val ''data:image/png;base64,AA=='',
     sd_cryptoSignature = Val ''00''\<rparr>"

definition ex_signed :: ots_bundle where
  "ex_signed = markSignerSigned ex_two ''s1704067200000a1b2c'' ex_sigdata ''2024-01-02T00:00:00.000Z''"

definition ex_removed :: ots_bundle where
  "ex_removed = removeSigner ex_signed ''s1704067200000a1b2c''"

definition ex_doc :: json where
  "ex_doc = JObj [(''name'', JStr ''contract.pdf''), (''size'', JNum 6), (''data'', JStr ''JVBERi0='')]"

definition ex_zero_version :: json where
  "ex_zero_version = JObj [(''version'', JNum 0), (''document'', ex_doc)]"

definition ex_loadable :: json where
  "ex_loadable = JObj [(''version'', JStr ''1.0''), (''document'', ex_doc), (''signers'', JArr [])]"


definition ex_node :: bytes where
  "ex_node = hashNodes (replicate 32 0xAB) (replicate 32 0xCD)"

definition ex_root :: bytes where
  "ex_root = hashNodes ex_node (replicate 32 0xEF)"

definition ex_step :: proofstep where
  "ex_step = \<lparr>hash_of = ''efefefefefefefefefefefefefefefefefefefefefefefefefefefefefefefef'',
     position = ''right''\<rparr>"


section \<open>The empty tree\<close>

text \<open>
  C10: \<open>buildTree\<close> on the empty leaf sequence returns a result, with \<open>root\<close> equal to
  \<open>null\<close> and no layers.
\<close>

theorem buildTree_empty: "buildTree [] = \<lparr>root = Null, layers = []\<rparr>"
  by (simp add: buildTree_def)

section \<open>Hexadecimal strings are read back\<close>

lemma lt16_cases: "n < 16 \<Longrightarrow> n \<in> {0, 1, 2, 3, 4, 5, 6, 7, 8, 9, 10, 11, 12, 13, 14, 15 :: nat}"
  by auto arith

lemma hexval_hexdigit: "n < 16 \<Longrightarrow> hexval (hexdigit n) = Some n"
  using lt16_cases [of n] by (auto simp: hexval_def hexdigit_def)

lemma hexdigit_not_special:
  "n < 16 \<Longrightarrow> \<not> isWhiteSpace (hexdigit n) \<and> hexdigit n \<noteq> CHR ''-'' \<and> hexdigit n \<noteq> CHR ''+''
     \<and> hexdigit n \<noteq> CHR ''x'' \<and> hexdigit n \<noteq> CHR ''X''"
  using lt16_cases [of n] by (auto simp: isWhiteSpace_def hexdigit_def)

lemma parseInt16_hexdigits:
  assumes "a < 16" "b < 16"
  shows "parseInt16 [hexdigit a, hexdigit b] = Some (int (16 * a + b))"
  using hexdigit_not_special [OF assms(1)] hexdigit_not_special [OF assms(2)]
    hexval_hexdigit [OF assms(1)] hexval_hexdigit [OF assms(2)]
  by (simp add: parseInt16_def)

lemma hex_of_byte:
  "n < 256 \<Longrightarrow> padStart 2 CHR ''0'' (toString16 n) = [hexdigit (n div 16), hexdigit (n mod 16)]"
proof (cases "n < 16")
  case True
  then show ?thesis by (simp add: toString16.simps [of n] padStart_def hexdigit_def)
next
  case False
  assume "n < 256"
  then have "n div 16 < 16" by simp
  with False show ?thesis
    by (simp add: toString16.simps [of n] toString16.simps [of "n div 16"] padStart_def)
qed

lemma unat_byte_less: "unat (b :: byte) < 256"
proof -
  have "unat b < 2 ^ LENGTH(8)" by (rule unsigned_less)
  then show ?thesis by simp
qed

lemma bytesToHex_Nil: "bytesToHex [] = []"
  by (simp add: bytesToHex_def)

lemma bytesToHex_Cons:
  "bytesToHex (b # bs) = hexdigit (unat b div 16) # hexdigit (unat b mod 16) # bytesToHex bs"
  by (simp add: bytesToHex_def hex_of_byte unat_byte_less)

lemma hexToBytes_Nil: "hexToBytes [] = []"
  by (simp add: hexToBytes_def)

lemma hexToBytes_Cons2: "hexToBytes (c # d # s) = toUint8 (parseInt16 [c, d]) # hexToBytes s"
proof -
  have "[0..<Suc (length s div 2)] = 0 # map Suc [0..<length s div 2]"
    by (simp add: upt_conv_Cons map_Suc_upt del: upt_Suc)
  then show ?thesis
    by (simp add: hexToBytes_def substr_def comp_def del: upt_Suc)
qed

lemma hexToBytes_bytesToHex: "hexToBytes (bytesToHex bs) = bs"
proof (induction bs)
  case Nil
  show ?case by (simp add: bytesToHex_Nil hexToBytes_Nil)
next
  case (Cons b bs)
  have "unat b div 16 < 16" "unat b mod 16 < 16"
    using unat_byte_less [of b] by simp_all
  then have "parseInt16 [hexdigit (unat b div 16), hexdigit (unat b mod 16)]
      = Some (int (16 * (unat b div 16) + unat b mod 16))"
    by (rule parseInt16_hexdigits)
  then have "toUint8 (parseInt16 [hexdigit (unat b div 16), hexdigit (unat b mod 16)]) = b"
    by (simp add: toUint8_def)
  with Cons show ?case by (simp add: bytesToHex_Cons hexToBytes_Cons2)
qed

lemma bytesToHex_inj: "bytesToHex a = bytesToHex b \<Longrightarrow> a = b"
  by (metis hexToBytes_bytesToHex)

section \<open>The digest of the empty message\<close>

lemma sha256_pad_Nil: "sha256_pad [] = [128, 0, 0, 0, 0, 0, 0, 0, 0, 0, 0, 0, 0, 0, 0, 0, 0, 0, 0, 0, 0, 0, 0, 0, 0, 0, 0, 0, 0, 0, 0, 0, 0, 0, 0, 0, 0, 0, 0, 0, 0, 0, 0, 0, 0, 0, 0, 0, 0, 0, 0, 0, 0, 0, 0, 0, 0, 0, 0, 0, 0, 0, 0, 0]"
  by code_simp

lemma sha256_words_Nil:
  "sha256_words 16 [128, 0, 0, 0, 0, 0, 0, 0, 0, 0, 0, 0, 0, 0, 0, 0, 0, 0, 0, 0, 0, 0, 0, 0, 0, 0, 0, 0, 0, 0, 0, 0, 0, 0, 0, 0, 0, 0, 0, 0, 0, 0, 0, 0, 0, 0, 0, 0, 0, 0, 0, 0, 0, 0, 0, 0, 0, 0, 0, 0, 0, 0, 0, 0] = [2147483648, 0, 0, 0, 0, 0, 0, 0, 0, 0, 0, 0, 0, 0, 0, 0]"
  by code_simp

lemma sha256_schedule_Nil:
  "sha256_schedule 48 [2147483648, 0, 0, 0, 0, 0, 0, 0, 0, 0, 0, 0, 0, 0, 0, 0] =
     [2147483648, 0, 0, 0, 0, 0, 0, 0, 0, 0, 0, 0, 0, 0, 0, 0, 2147483648, 0, 2117632, 0, 570427392, 0, 84448578, 2147483648, 1476919296, 4235264, 1451269, 1711282176, 3592562048, 337794312, 3594910044, 3374850048, 3287351444, 676112230, 109604294, 2742808854, 1904000662, 4274181962, 2813755136, 2165675682, 2561075048, 62000258, 1562224585, 2975250741, 3286092305, 614207615, 3297584367, 1575308336, 3741240933, 748767245, 1008022316, 30329261, 369937616, 195877528, 907775968, 3526495142, 43741191, 1967544444, 133517113, 4161330627, 3704256008, 1581412744, 1153231965, 996066459]"
  by code_simp

lemma sha256_rounds_Nil:
  "foldl sha256_round sha256_init (zip sha256_K
     [2147483648, 0, 0, 0, 0, 0, 0, 0, 0, 0, 0, 0, 0, 0, 0, 0, 2147483648, 0, 2117632, 0, 570427392, 0, 84448578, 2147483648, 1476919296, 4235264, 1451269, 1711282176, 3592562048, 337794312, 3594910044, 3374850048, 3287351444, 676112230, 109604294, 2742808854, 1904000662, 4274181962, 2813755136, 2165675682, 2561075048, 62000258, 1562224585, 2975250741, 3286092305, 614207615, 3297584367, 1575308336, 3741240933, 748767245, 1008022316, 30329261, 369937616, 195877528, 907775968, 3526495142, 43741191, 1967544444, 133517113, 4161330627, 3704256008, 1581412744, 1153231965, 996066459]) =
     \<lparr>ha = 2040978907, hb = 3717492111, hc = 1586299222, hd' = 4095722474, he = 3600805733, hf = 3382061760, hg = 2232532848, hh = 477227836\<rparr>"
  by code_simp

lemma sha256_block_Nil:
  "sha256_block sha256_init [128, 0, 0, 0, 0, 0, 0, 0, 0, 0, 0, 0, 0, 0, 0, 0, 0, 0, 0, 0, 0, 0, 0, 0, 0, 0, 0, 0, 0, 0, 0, 0, 0, 0, 0, 0, 0, 0, 0, 0, 0, 0, 0, 0, 0, 0, 0, 0, 0, 0, 0, 0, 0, 0, 0, 0, 0, 0, 0, 0, 0, 0, 0, 0] =
     \<lparr>ha = 1779033703 + 2040978907, hb = 3144134277 + 3717492111, hc = 1013904242 + 1586299222,
      hd' = 2773480762 + 4095722474, he = 1359893119 + 3600805733, hf = 2600822924 + 3382061760,
      hg = 528734635 + 2232532848, hh = 1541459225 + 477227836\<rparr>"
  by (simp only: sha256_block_def Let_def sha256_words_Nil sha256_schedule_Nil sha256_rounds_Nil)
    (simp add: sha256_init_def)

lemma sha256_Nil:
  "sha256 [] = [227, 176, 196, 66, 152, 252, 28, 20, 154, 251, 244, 200, 153, 111, 185, 36, 39, 174, 65, 228, 100, 155, 147, 76, 164, 149, 153, 27, 120, 82, 184, 85]"
proof -
  have "sha256_blocks (length (sha256_pad []) div 64) sha256_init (sha256_pad [])
      = sha256_block sha256_init (sha256_pad [])"
    by (simp add: sha256_pad_Nil)
  then show ?thesis
    by (simp add: sha256_def Let_def sha256_pad_Nil sha256_block_Nil bytes_of_w32_def)
qed

lemma hash_Nil: "bytesToHex (hash []) = ''e3b0c44298fc1c149afbf4c8996fb92427ae41e4649b934ca495991b7852b855''"
  by (simp only: hash_def sha256_Nil) (simp add: bytesToHex_Cons bytesToHex_Nil hexdigit_def)

section \<open>The status of a bundle\<close>

lemma status_updateStatus: "status (updateStatus b) = transition (signers b)"
  by (cases "signers b") (auto simp: updateStatus_def transition_def list_all_iff list_ex_iff)

lemma signers_updateStatus: "signers (updateStatus b) = signers b"
  by (simp add: updateStatus_def)

lemma status_markSignerSigned:
  "status (markSignerSigned b i sd now) = transition (signers (markSignerSigned b i sd now))"
  by (simp add: markSignerSigned_def status_updateStatus signers_updateStatus)

lemma transition_draft:
  "ss = [] \<or> (\<forall>s\<in>set ss. \<not> signed s) \<Longrightarrow> transition ss = ''draft''"
  by (auto simp: transition_def list_ex_iff)

lemma transition_completed:
  "ss \<noteq> [] \<Longrightarrow> \<forall>s\<in>set ss. signed s \<Longrightarrow> transition ss = ''completed''"
  by (cases ss) (auto simp: transition_def list_ex_iff list_all_iff)

lemma transition_in_progress:
  "\<exists>s\<in>set ss. signed s \<Longrightarrow> \<exists>s\<in>set ss. \<not> signed s \<Longrightarrow> transition ss = ''in_progress''"
  by (cases ss) (auto simp: transition_def list_ex_iff list_all_iff)

lemma ex_one_eq:
  "ex_one = ex_new\<lparr>signers :=
     [\<lparr>s_id = ''s1704067200000a1b2c'', s_name = ''Alice'', s_email = ''alice@example.com'',
       s_color = ''#e63946'', signed = False, signedAt = Null, publicKey = Null,
       signatureImage = Null, cryptoSignature = Undefined\<rparr>]\<rparr>"
  by (simp add: ex_one_def ex_new_def create_def addSigner_def substr_def Let_def colors_def
      trim_def toLowerCase_def lowerChar_def isWhiteSpace_def char_of_eq_iff)

lemma signers_ex_two:
  "signers ex_two =
     [\<lparr>s_id = ''s1704067200000a1b2c'', s_name = ''Alice'', s_email = ''alice@example.com'',
       s_color = ''#e63946'', signed = False, signedAt = Null, publicKey = Null,
       signatureImage = Null, cryptoSignature = Undefined\<rparr>,
      \<lparr>s_id = ''s1704067200001f6g7h'', s_name = ''Bob'', s_email = ''bob@example.com'',
       s_color = ''#457b9d'', signed = False, signedAt = Null, publicKey = Null,
       signatureImage = Null, cryptoSignature = Undefined\<rparr>]"
  by (simp add: ex_two_def ex_one_eq addSigner_def substr_def Let_def colors_def
      trim_def toLowerCase_def lowerChar_def isWhiteSpace_def char_of_eq_iff)

lemma signers_ex_signed:
  "signers ex_signed =
     [\<lparr>s_id = ''s1704067200000a1b2c'', s_name = ''Alice'', s_email = ''alice@example.com'',
       s_color = ''#e63946'', signed = True, signedAt = Val ''2024-01-02T00:00:00.000Z'',
       publicKey = Val ''ed25519:00'', signatureImage = Val ''data:image/png;base64,AA=='',
       cryptoSignature = Val ''00''\<rparr>,
      \<lparr>s_id = ''s1704067200001f6g7h'', s_name = ''Bob'', s_email = ''bob@example.com'',
       s_color = ''#457b9d'', signed = False, signedAt = Null, publicKey = Null,
       signatureImage = Null, cryptoSignature = Undefined\<rparr>]"
  by (simp add: ex_signed_def markSignerSigned_def signers_updateStatus signers_ex_two ex_sigdata_def)

lemma signers_ex_removed:
  "signers ex_removed =
     [\<lparr>s_id = ''s1704067200001f6g7h'', s_name = ''Bob'', s_email = ''bob@example.com'',
       s_color = ''#457b9d'', signed = False, signedAt = Null, publicKey = Null,
       signatureImage = Null, cryptoSignature = Undefined\<rparr>]"
  by (simp add: ex_removed_def removeSigner_def signers_ex_signed)

text \<open>
  C6: after \<open>updateStatus\<close> the status is \<open>draft\<close> when the signer list is empty or no
  signer has signed, \<open>completed\<close> when the list is not empty and every signer has signed,
  and \<open>in_progress\<close> when some signer has signed and some signer has not; and
  \<open>markSignerSigned\<close> leaves the status that this recomputation gives its signers.
\<close>

theorem updateStatus_cases:
  "(signers b = [] \<or> (\<forall>s\<in>set (signers b). \<not> signed s) \<longrightarrow> status (updateStatus b) = ''draft'')
   \<and> (signers b \<noteq> [] \<and> (\<forall>s\<in>set (signers b). signed s) \<longrightarrow> status (updateStatus b) = ''completed'')
   \<and> ((\<exists>s\<in>set (signers b). signed s) \<and> (\<exists>s\<in>set (signers b). \<not> signed s)
        \<longrightarrow> status (updateStatus b) = ''in_progress'')
   \<and> status (markSignerSigned b i sd now) = status (updateStatus (markSignerSigned b i sd now))
   \<and> status (markSignerSigned b i sd now) = transition (signers (markSignerSigned b i sd now))"
proof (intro conjI impI)
  assume "signers b = [] \<or> (\<forall>s\<in>set (signers b). \<not> signed s)"
  then show "status (updateStatus b) = ''draft''"
    by (simp add: status_updateStatus transition_draft)
next
  assume "signers b \<noteq> [] \<and> (\<forall>s\<in>set (signers b). signed s)"
  then show "status (updateStatus b) = ''completed''"
    by (simp add: status_updateStatus transition_completed)
next
  assume "(\<exists>s\<in>set (signers b). signed s) \<and> (\<exists>s\<in>set (signers b). \<not> signed s)"
  then show "status (updateStatus b) = ''in_progress''"
    by (simp add: status_updateStatus transition_in_progress)
next
  show "status (markSignerSigned b i sd now) = status (updateStatus (markSignerSigned b i sd now))"
    by (simp only: status_updateStatus status_markSignerSigned)
next
  show "status (markSignerSigned b i sd now) = transition (signers (markSignerSigned b i sd now))"
    by (rule status_markSignerSigned)
qed

theorem updateStatus_cases_witness:
  "((\<exists>s\<in>set (signers ex_signed). signed s) \<and> (\<exists>s\<in>set (signers ex_signed). \<not> signed s))
   \<and> status (updateStatus ex_signed) = ''in_progress''
   \<and> (signers ex_new = [] \<or> (\<forall>s\<in>set (signers ex_new). \<not> signed s))
   \<and> status (updateStatus ex_new) = ''draft''"
proof -
  have mixed: "(\<exists>s\<in>set (signers ex_signed). signed s) \<and> (\<exists>s\<in>set (signers ex_signed). \<not> signed s)"
    by (simp add: signers_ex_signed)
  have none: "signers ex_new = [] \<or> (\<forall>s\<in>set (signers ex_new). \<not> signed s)"
    by (simp add: ex_new_def create_def)
  from mixed none
    updateStatus_cases [of ex_signed "[]" ex_sigdata "[]"]
    updateStatus_cases [of ex_new "[]" ex_sigdata "[]"]
  show ?thesis by blast
qed

text \<open>
  C7 as the specification states it fails: \<open>removeSigner\<close> does not recompute the status.
  With Alice and Bob as signers, Alice signs (the status becomes \<open>in_progress\<close>) and is
  then removed: Bob, who has not signed, is the only signer left, and the status is still
  \<open>in_progress\<close>, where the transition function gives \<open>draft\<close>.
\<close>

theorem removeSigner_keeps_status_counterexample:
  "reach ex_removed (signers ex_signed)
   \<and> status ex_removed = ''in_progress'' \<and> transition (signers ex_removed) = ''draft''"
proof -
  have "reach ex_new []"
    unfolding ex_new_def by (rule reach_create)
  then have "reach ex_one []"
    unfolding ex_one_def by (rule reach_addSigner)
  then have "reach ex_two []"
    unfolding ex_two_def by (rule reach_addSigner)
  then have "reach ex_signed (signers ex_signed)"
    by (rule reach_markSignerSigned) (simp add: ex_signed_def)
  then have r: "reach ex_removed (signers ex_signed)"
    unfolding ex_removed_def by (rule reach_removeSigner)
  have "status ex_signed = ''in_progress''"
    by (simp add: ex_signed_def status_markSignerSigned signers_ex_signed [unfolded ex_signed_def]
        transition_def)
  then have s: "status ex_removed = ''in_progress''"
    by (simp add: ex_removed_def removeSigner_def)
  have t: "transition (signers ex_removed) = ''draft''"
    by (simp add: signers_ex_removed transition_def)
  from r s t show ?thesis by simp
qed

text \<open>
  C7, amended: the status is recomputed by \<open>markSignerSigned\<close> only. In every bundle that
  the operations reach from a new one, the status is the transition function of the signer
  list that the last \<open>markSignerSigned\<close> left (of the empty list before the first); it is
  the transition function of the signers of the bundle right after \<open>markSignerSigned\<close>;
  \<open>addSigner\<close> and \<open>removeSigner\<close> leave the status as it was; \<open>addField\<close>,
  \<open>removeField\<close> and \<open>updateField\<close> leave the status and the signers as they were.
\<close>

theorem status_follows_last_sign:
  "(reach b ss \<longrightarrow> status b = transition ss)
   \<and> status (markSignerSigned b i sd now) = transition (signers (markSignerSigned b i sd now))
   \<and> status (fst (addSigner b name email clock rnd)) = status b
   \<and> status (removeSigner b i) = status b
   \<and> status (fst (addField b fd clock rnd)) = status b
   \<and> signers (fst (addField b fd clock rnd)) = signers b
   \<and> status (removeField b fid) = status b \<and> signers (removeField b fid) = signers b
   \<and> status (updateField b fid updates) = status b \<and> signers (updateField b fid updates) = signers b"
proof -
  have "status b' = transition ss'" if "reach b' ss'" for b' ss'
    using that
  proof (induction rule: reach.induct)
    case (reach_create pdfName pdfSize base64 now)
    show ?case by (simp add: create_def transition_def)
  next
    case (reach_markSignerSigned b ss b' signerId signatureData now)
    then show ?case by (simp add: status_markSignerSigned)
  next
    case (reach_addSigner b ss name email clock rnd)
    then show ?case by (simp add: addSigner_def Let_def)
  next
    case (reach_removeSigner b ss signerId)
    then show ?case by (simp add: removeSigner_def)
  next
    case (reach_addField b ss fieldData clock rnd)
    then show ?case by (simp add: addField_def Let_def)
  next
    case (reach_removeField b ss fieldId)
    then show ?case by (simp add: removeField_def)
  next
    case (reach_updateField b ss fieldId updates)
    then show ?case by (simp add: updateField_def)
  qed
  then show ?thesis
    by (simp add: status_markSignerSigned addSigner_def removeSigner_def addField_def
        removeField_def updateField_def Let_def)
qed

theorem status_follows_last_sign_witness:
  "reach ex_signed (signers ex_signed) \<and> status ex_signed = transition (signers ex_signed)"
proof -
  have "reach ex_new []"
    unfolding ex_new_def by (rule reach_create)
  then have "reach ex_one []"
    unfolding ex_one_def by (rule reach_addSigner)
  then have "reach ex_two []"
    unfolding ex_two_def by (rule reach_addSigner)
  then have r: "reach ex_signed (signers ex_signed)"
    by (rule reach_markSignerSigned) (simp add: ex_signed_def)
  with status_follows_last_sign [of ex_signed "signers ex_signed"] show ?thesis
    by blast
qed


section \<open>Loading a bundle\<close>

lemma lookup_JObj: "lookup (JObj ps) k = (case map_of ps k of None \<Rightarrow> Undefined | Some v \<Rightarrow> Val v)"
  by (simp add: lookup_def split: option.splits)

lemma getProp_lookup: "j \<noteq> JNull \<Longrightarrow> getProp j k = Inr (lookup j k)"
  by (cases j) (simp_all add: lookup_def split: option.splits)

lemma lookup_JNull: "lookup JNull k = Undefined"
  by (simp add: lookup_def)

lemma truthy_iff:
  "truthy v \<longleftrightarrow> v \<notin> {Undefined, Null, Val JNull, Val (JBool False), Val (JNum 0), Val (JStr [])}"
  by (cases v rule: truthy.cases) auto

lemma load_unfold:
  "load j =
     (if j = JNull then Inl TypeError
      else if \<not> truthy (lookup j ''version'') then Inl (Error ''Invalid bundle: missing version'')
      else if \<not> truthy (lookup j ''document'') then Inl (Error ''Invalid bundle: missing document'')
      else (case lookup j ''document'' of
              Val doc \<Rightarrow> if \<not> truthy (lookup doc ''data'')
                         then Inl (Error ''Invalid bundle: missing document'') else Inr j
            | _ \<Rightarrow> Inl (Error ''Invalid bundle: missing document'')))"
proof (cases "j = JNull")
  case True
  then show ?thesis by (simp add: load_def)
next
  case False
  show ?thesis
  proof (cases "lookup j ''document''")
    case (Val doc)
    show ?thesis
    proof (cases "doc = JNull")
      case True
      with False Val show ?thesis by (simp add: load_def getProp_lookup)
    next
      case nn: False
      with False Val show ?thesis by (simp add: load_def getProp_lookup)
    qed
  qed (use False in \<open>simp_all add: load_def getProp_lookup\<close>)
qed

text \<open>
  C8 as the specification states it fails: the parsed bundle below has a \<open>version\<close>
  field, a \<open>document\<close> and a \<open>document.data\<close>, and \<open>load\<close> throws, because the
  version is the number 0.
\<close>

theorem load_zero_version_counterexample:
  "hasField ex_zero_version ''version'' \<and> hasField ex_zero_version ''document''
   \<and> lookup ex_zero_version ''document'' = Val ex_doc \<and> hasField ex_doc ''data''
   \<and> load ex_zero_version = Inl (Error ''Invalid bundle: missing version'')"
  by (simp add: hasField_def ex_zero_version_def ex_doc_def load_unfold lookup_JObj)

text \<open>
  C8, amended: \<open>load\<close> throws if and only if \<open>version\<close>, \<open>document\<close> or
  \<open>document.data\<close> is absent or falsy (\<open>null\<close>, \<open>false\<close>, 0 or the empty string; the
  parsed value \<open>null\<close> has no property, and reading one throws); for every other parsed
  value it returns the value unchanged.
\<close>

theorem load_throws_iff:
  "((\<exists>e. load j = Inl e) \<longleftrightarrow>
      \<not> truthy (lookup j ''version'') \<or> \<not> truthy (lookup j ''document'') \<or> \<not> truthy (documentData j))
   \<and> (truthy (lookup j ''version'') \<and> truthy (lookup j ''document'') \<and> truthy (documentData j)
        \<longrightarrow> load j = Inr j)
   \<and> (truthy v \<longleftrightarrow> v \<notin> {Undefined, Null, Val JNull, Val (JBool False), Val (JNum 0), Val (JStr [])})"
proof (intro conjI)
  show "truthy v \<longleftrightarrow> v \<notin> {Undefined, Null, Val JNull, Val (JBool False), Val (JNum 0), Val (JStr [])}"
    by (rule truthy_iff)
next
  show "(\<exists>e. load j = Inl e) \<longleftrightarrow>
      \<not> truthy (lookup j ''version'') \<or> \<not> truthy (lookup j ''document'') \<or> \<not> truthy (documentData j)"
    by (cases "lookup j ''document''")
      (auto simp: load_unfold documentData_def lookup_JNull)
next
  show "truthy (lookup j ''version'') \<and> truthy (lookup j ''document'') \<and> truthy (documentData j)
        \<longrightarrow> load j = Inr j"
    by (cases "lookup j ''document''")
      (auto simp: load_unfold documentData_def lookup_JNull)
qed

theorem load_throws_iff_witness:
  "truthy (lookup ex_loadable ''version'') \<and> truthy (lookup ex_loadable ''document'')
   \<and> truthy (documentData ex_loadable) \<and> load ex_loadable = Inr ex_loadable"
proof -
  have "truthy (lookup ex_loadable ''version'') \<and> truthy (lookup ex_loadable ''document'')
      \<and> truthy (documentData ex_loadable)"
    by (simp add: ex_loadable_def ex_doc_def documentData_def lookup_JObj)
  with load_throws_iff [of ex_loadable] show ?thesis
    by blast
qed

section \<open>Adding a signer\<close>

text \<open>
  C9: \<open>addSigner\<close> appends one signer with the lower-cased, trimmed email, \<open>signed\<close>
  false, and \<open>signedAt\<close>, \<open>publicKey\<close> and \<open>signatureImage\<close> equal to \<open>null\<close>, and
  leaves the signers and the fields that were there; but the new signer has no property
  \<open>cryptoSignature\<close>: it is \<open>undefined\<close>, not \<open>null\<close>.
\<close>

theorem addSigner_no_cryptoSignature:
  "addSigner ex_new ''Alice'' '' Alice@Example.COM '' ''1704067200000'' ''0.a1b2c3d4e5'' =
     (ex_new\<lparr>signers :=
        [\<lparr>s_id = ''s1704067200000a1b2c'', s_name = ''Alice'', s_email = ''alice@example.com'',
          s_color = ''#e63946'', signed = False, signedAt = Null, publicKey = Null,
          signatureImage = Null, cryptoSignature = Undefined\<rparr>]\<rparr>,
      \<lparr>s_id = ''s1704067200000a1b2c'', s_name = ''Alice'', s_email = ''alice@example.com'',
        s_color = ''#e63946'', signed = False, signedAt = Null, publicKey = Null,
        signatureImage = Null, cryptoSignature = Undefined\<rparr>)
   \<and> cryptoSignature (snd (addSigner b name email clock rnd)) \<noteq> Null
   \<and> signers (fst (addSigner b name email clock rnd)) = signers b @ [snd (addSigner b name email clock rnd)]
   \<and> fields_of (fst (addSigner b name email clock rnd)) = fields_of b
   \<and> s_email (snd (addSigner b name email clock rnd)) = trim (toLowerCase email)
   \<and> signed (snd (addSigner b name email clock rnd)) = False
   \<and> signedAt (snd (addSigner b name email clock rnd)) = Null
   \<and> publicKey (snd (addSigner b name email clock rnd)) = Null
   \<and> signatureImage (snd (addSigner b name email clock rnd)) = Null"
proof -
  have concrete: "addSigner ex_new ''Alice'' '' Alice@Example.COM '' ''1704067200000'' ''0.a1b2c3d4e5'' =
     (ex_new\<lparr>signers :=
        [\<lparr>s_id = ''s1704067200000a1b2c'', s_name = ''Alice'', s_email = ''alice@example.com'',
          s_color = ''#e63946'', signed = False, signedAt = Null, publicKey = Null,
          signatureImage = Null, cryptoSignature = Undefined\<rparr>]\<rparr>,
      \<lparr>s_id = ''s1704067200000a1b2c'', s_name = ''Alice'', s_email = ''alice@example.com'',
        s_color = ''#e63946'', signed = False, signedAt = Null, publicKey = Null,
        signatureImage = Null, cryptoSignature = Undefined\<rparr>)"
    by (simp add: ex_new_def create_def addSigner_def substr_def Let_def colors_def
        trim_def toLowerCase_def lowerChar_def isWhiteSpace_def char_of_eq_iff)
  have general:
    "cryptoSignature (snd (addSigner b name email clock rnd)) \<noteq> Null
     \<and> signers (fst (addSigner b name email clock rnd)) = signers b @ [snd (addSigner b name email clock rnd)]
     \<and> fields_of (fst (addSigner b name email clock rnd)) = fields_of b
     \<and> s_email (snd (addSigner b name email clock rnd)) = trim (toLowerCase email)
     \<and> signed (snd (addSigner b name email clock rnd)) = False
     \<and> signedAt (snd (addSigner b name email clock rnd)) = Null
     \<and> publicKey (snd (addSigner b name email clock rnd)) = Null
     \<and> signatureImage (snd (addSigner b name email clock rnd)) = Null"
    by (simp add: addSigner_def Let_def)
  from concrete general show ?thesis
    by (rule conjI)
qed


section \<open>The Merkle tree\<close>



lemma combined_commute: "combined a b = combined b a"
proof -
  consider "bytesToHex a < bytesToHex b" | "bytesToHex a = bytesToHex b" | "bytesToHex b < bytesToHex a"
    by (rule linorder_cases)
  then show ?thesis
  proof cases
    case 1
    then have "\<not> bytesToHex b < bytesToHex a" by simp
    with 1 show ?thesis by (simp add: combined_def)
  next
    case 2
    then have "a = b" by (rule bytesToHex_inj)
    then show ?thesis by simp
  next
    case 3
    then have "\<not> bytesToHex a < bytesToHex b" by simp
    with 3 show ?thesis by (simp add: combined_def)
  qed
qed

lemma hashNodes_commute: "hashNodes a b = hashNodes b a"
  unfolding hashNodes_def by (rule arg_cong [OF combined_commute])

lemma verifyLoop_Cons:
  "verifyLoop c (st # rest) = verifyLoop (hash (combined c (hexToBytes (hash_of st)))) rest"
  by (simp add: Let_def hashNodes_def combined_commute [of "hexToBytes (hash_of st)" c])


lemma verifyLoop_hashes:
  "map hash_of p = map hash_of q \<Longrightarrow> verifyLoop c p = verifyLoop c q"
proof (induction p arbitrary: q c)
  case Nil
  then show ?case by simp
next
  case (Cons st p)
  then obtain st' q' where q: "q = st' # q'" "hash_of st = hash_of st'" "map hash_of p = map hash_of q'"
    by (cases q) auto
  from Cons.IH [OF q(3)] q(1,2) show ?case
    by (simp only: verifyLoop_Cons)
qed


text \<open>
  C2: \<open>hashNodes\<close> gives the same hash whichever node is passed first (it hashes the
  node with the smaller hexadecimal string first), and the result of \<open>verifyProof\<close>
  depends on the proof through the sibling hashes only, not through the position hints.
\<close>

theorem hashNodes_content_ordered:
  "hashNodes a b = hashNodes b a
   \<and> hashNodes a b = hash (if bytesToHex a \<le> bytesToHex b then a @ b else b @ a)
   \<and> (map hash_of p = map hash_of q \<longrightarrow> verifyProof leaf p r = verifyProof leaf q r)"
proof (intro conjI)
  show "hashNodes a b = hashNodes b a"
    by (rule hashNodes_commute)
next
  have "a = b" if "bytesToHex a = bytesToHex b"
    using that by (rule bytesToHex_inj)
  then show "hashNodes a b = hash (if bytesToHex a \<le> bytesToHex b then a @ b else b @ a)"
    by (auto simp: hashNodes_def combined_def less_le)
next
  show "map hash_of p = map hash_of q \<longrightarrow> verifyProof leaf p r = verifyProof leaf q r"
    by (simp add: verifyProof_def verifyLoop_hashes [of p q])
qed

theorem hashNodes_content_ordered_witness:
  "map hash_of [ex_step] = map hash_of [ex_step\<lparr>position := ''left''\<rparr>]
   \<and> verifyProof (Bytes ex_node) [ex_step] (Bytes ex_root)
       = verifyProof (Bytes ex_node) [ex_step\<lparr>position := ''left''\<rparr>] (Bytes ex_root)"
proof -
  have "map hash_of [ex_step] = map hash_of [ex_step\<lparr>position := ''left''\<rparr>]"
    by simp
  with hashNodes_content_ordered [of ex_node ex_node "[ex_step]" "[ex_step\<lparr>position := ''left''\<rparr>]"
      "Bytes ex_node" "Bytes ex_root"]
  show ?thesis by blast
qed


subsection \<open>A proof climbs the layers\<close>












subsection \<open>A changed leaf or sibling that verifies gives a collision\<close>










subsection \<open>The example tree\<close>

















section \<open>Normalised emails and the key derivation\<close>

lemma of_char_less_256: "(of_char c :: nat) < 256"
  by (rule of_char_mod_256 [where ?'a = nat, THEN subst]) simp

lemma lowerChar_idem: "lowerChar (lowerChar c) = lowerChar c"
  using of_char_less_256 [of c] by (auto simp: lowerChar_def Let_def)

lemma isWhiteSpace_lowerChar: "isWhiteSpace (lowerChar c) = isWhiteSpace c"
  using of_char_less_256 [of c] by (auto simp: lowerChar_def isWhiteSpace_def Let_def)

lemma toLowerCase_idem: "toLowerCase (toLowerCase s) = toLowerCase s"
  by (simp add: toLowerCase_def lowerChar_idem)

lemma toLowerCase_dropWhile:
  "toLowerCase (dropWhile isWhiteSpace s) = dropWhile isWhiteSpace (toLowerCase s)"
  by (induction s) (simp_all add: toLowerCase_def isWhiteSpace_lowerChar)

lemma toLowerCase_rev: "toLowerCase (rev s) = rev (toLowerCase s)"
  by (simp add: toLowerCase_def rev_map)

lemma toLowerCase_trim: "toLowerCase (trim s) = trim (toLowerCase s)"
  by (simp add: trim_def toLowerCase_rev toLowerCase_dropWhile)

lemma dropWhile_clean: "xs = [] \<or> \<not> P (hd xs) \<Longrightarrow> dropWhile P xs = xs"
  by (cases xs) auto

lemma last_dropWhile: "dropWhile P xs \<noteq> [] \<Longrightarrow> last (dropWhile P xs) = last xs"
  by (induction xs) (auto split: if_splits)

lemma trim_idem: "trim (trim s) = trim s"
proof -
  let ?a = "dropWhile isWhiteSpace s"
  let ?b = "dropWhile isWhiteSpace (rev ?a)"
  have a: "?a = [] \<or> \<not> isWhiteSpace (hd ?a)"
    using hd_dropWhile [of isWhiteSpace s] by blast
  have "rev ?b = [] \<or> \<not> isWhiteSpace (hd (rev ?b))"
  proof (cases "?b = []")
    case True
    then show ?thesis by simp
  next
    case False
    then have "last ?b = last (rev ?a)"
      by (rule last_dropWhile)
    moreover from False have "?a \<noteq> []"
      by (metis dropWhile.simps(1) rev.simps(1))
    ultimately have "hd (rev ?b) = hd ?a"
      using False by (simp add: hd_rev last_rev)
    with a \<open>?a \<noteq> []\<close> show ?thesis by metis
  qed
  then have "dropWhile isWhiteSpace (rev ?b) = rev ?b"
    by (rule dropWhile_clean)
  then show ?thesis
    by (simp add: trim_def)
qed

lemma normalize_idem: "trim (toLowerCase (trim (toLowerCase e))) = trim (toLowerCase e)"
  by (simp add: toLowerCase_trim toLowerCase_idem trim_idem)

text \<open>
  C5: \<open>deriveKeypair\<close> gives the same key pair for an email and for its normal form
  (lower-cased and trimmed), hence for any two emails with the same normal form; it is a
  function of the email and the password, since PBKDF2 and the key generation from the seed
  are functions of their arguments.
\<close>

theorem deriveKeypair_normalized:
  "deriveKeypair deriveBits fromSeed email password
     = deriveKeypair deriveBits fromSeed (trim (toLowerCase email)) password
   \<and> (trim (toLowerCase email) = trim (toLowerCase email') \<longrightarrow>
        deriveKeypair deriveBits fromSeed email password
          = deriveKeypair deriveBits fromSeed email' password)"
  by (simp add: deriveKeypair_def normalize_idem)

theorem deriveKeypair_normalized_witness:
  "trim (toLowerCase '' Alice@Example.COM '') = trim (toLowerCase ''alice@example.com'')
   \<and> deriveKeypair (\<lambda>pw salt n bits. take (bits div 8) (hash (pw @ salt)))
         (\<lambda>seed. \<lparr>kp_publicKey = hash seed, kp_secretKey = seed @ hash seed\<rparr>)
         '' Alice@Example.COM '' ''correct horse''
     = deriveKeypair (\<lambda>pw salt n bits. take (bits div 8) (hash (pw @ salt)))
         (\<lambda>seed. \<lparr>kp_publicKey = hash seed, kp_secretKey = seed @ hash seed\<rparr>)
         ''alice@example.com'' ''correct horse''"
proof -
  have "trim (toLowerCase '' Alice@Example.COM '') = trim (toLowerCase ''alice@example.com'')"
    by (simp add: trim_def toLowerCase_def lowerChar_def isWhiteSpace_def char_of_eq_iff)
  with deriveKeypair_normalized [of "\<lambda>pw salt n bits. take (bits div 8) (hash (pw @ salt))"
      "\<lambda>seed. \<lparr>kp_publicKey = hash seed, kp_secretKey = seed @ hash seed\<rparr>"
      "'' Alice@Example.COM ''" "''correct horse''" "''alice@example.com''"]
  show ?thesis by blast
qed


section \<open>The signing message\<close>

lemma byte_of_nat_inj:
  "x < 256 \<Longrightarrow> y < 256 \<Longrightarrow> (word_of_nat x :: byte) = word_of_nat y \<Longrightarrow> x = y"
  by (simp add: word_of_nat_eq_iff take_bit_eq_mod)

lemma utf8_low: "(of_char c :: nat) < 128 \<Longrightarrow> utf8 c = [word_of_nat (of_char c)]"
  by (simp add: utf8_def Let_def)

lemma utf8_high:
  "\<not> (of_char c :: nat) < 128 \<Longrightarrow>
     utf8 c = [word_of_nat (192 + of_char c div 64), word_of_nat (128 + of_char c mod 64)]"
  by (simp add: utf8_def Let_def)

lemma utf8_prefix:
  assumes "utf8 a @ r = utf8 b @ r'"
  shows "a = b \<and> r = r'"
proof -
  let ?n = "of_char a :: nat" and ?m = "of_char b :: nat"
  have n: "?n < 256" and m: "?m < 256"
    by (rule of_char_less_256)+
  have "?n = ?m \<and> r = r'"
  proof (cases "?n < 128")
    case True
    show ?thesis
    proof (cases "?m < 128")
      case m128: True
      with True assms have eq: "(word_of_nat ?n :: byte) = word_of_nat ?m" and rr: "r = r'"
        by (simp_all add: utf8_low)
      from byte_of_nat_inj [OF n m eq] rr show ?thesis
        by simp
    next
      case False
      with True assms have "(word_of_nat ?n :: byte) = word_of_nat (192 + ?m div 64)"
        by (simp add: utf8_low utf8_high)
      moreover have "192 + ?m div 64 < 256"
        using m by arith
      ultimately have "?n = 192 + ?m div 64"
        using n byte_of_nat_inj by blast
      with True show ?thesis by simp
    qed
  next
    case False
    show ?thesis
    proof (cases "?m < 128")
      case m128: True
      with False assms have "(word_of_nat (192 + ?n div 64) :: byte) = word_of_nat ?m"
        by (simp add: utf8_low utf8_high)
      moreover have "192 + ?n div 64 < 256"
        using n by arith
      ultimately have "192 + ?n div 64 = ?m"
        using m byte_of_nat_inj by blast
      with m128 show ?thesis by simp
    next
      case m128: False
      with False assms have hi: "(word_of_nat (192 + ?n div 64) :: byte) = word_of_nat (192 + ?m div 64)"
        and lo: "(word_of_nat (128 + ?n mod 64) :: byte) = word_of_nat (128 + ?m mod 64)"
        and "r = r'"
        by (simp_all add: utf8_low utf8_high)
      have "192 + ?n div 64 < 256" "192 + ?m div 64 < 256"
        using n m by arith+
      then have "192 + ?n div 64 = 192 + ?m div 64"
        using hi by (rule byte_of_nat_inj)
      moreover have "128 + ?n mod 64 < 256" "128 + ?m mod 64 < 256"
        by arith+
      then have "128 + ?n mod 64 = 128 + ?m mod 64"
        using lo by (rule byte_of_nat_inj)
      ultimately have "?n = ?m"
        by (metis add_left_cancel mult_div_mod_eq)
      with \<open>r = r'\<close> show ?thesis by simp
    qed
  qed
  then show ?thesis by simp
qed

lemma utf8_not_Nil: "utf8 c \<noteq> []"
  by (simp add: utf8_def Let_def)

lemma encode_inj: "encode s = encode t \<Longrightarrow> s = t"
proof (induction s arbitrary: t)
  case Nil
  then show ?case
    by (cases t) (simp_all add: encode_def utf8_not_Nil)
next
  case (Cons c s)
  show ?case
  proof (cases t)
    case Nil
    with Cons.prems show ?thesis
      by (simp add: encode_def utf8_not_Nil)
  next
    case (Cons d t')
    with Cons.prems have "utf8 c @ encode s = utf8 d @ encode t'"
      by (simp add: encode_def)
    then have "c = d \<and> encode s = encode t'"
      by (rule utf8_prefix)
    with Cons.IH [of t'] Cons show ?thesis
      by simp
  qed
qed

lemma escapeChar_prefix:
  assumes "escapeChar a @ r = escapeChar b @ r'"
  shows "a = b \<and> r = r'"
proof -
  define dec :: "string \<Rightarrow> char \<times> string" where
    "dec s = (case s of
        [] \<Rightarrow> (CHR ''?'', [])
      | c # rest \<Rightarrow>
          if c \<noteq> CHR 0x5C then (c, rest)
          else (case rest of
              [] \<Rightarrow> (CHR ''?'', [])
            | x # rest2 \<Rightarrow>
                if x = CHR ''b'' then (char_of (8 :: nat), rest2)
                else if x = CHR ''t'' then (char_of (9 :: nat), rest2)
                else if x = CHR ''n'' then (char_of (10 :: nat), rest2)
                else if x = CHR ''f'' then (char_of (12 :: nat), rest2)
                else if x = CHR ''r'' then (char_of (13 :: nat), rest2)
                else if x = CHR ''u'' then
                  (char_of (16 * the (hexval (rest2 ! 2)) + the (hexval (rest2 ! 3))), drop 4 rest2)
                else (x, rest2)))" for s
  have dec: "dec (escapeChar c @ s) = (c, s)" for c s
  proof -
    let ?n = "of_char c :: nat"
    have c: "c = char_of ?n" by simp
    consider "?n = 8" | "?n = 9" | "?n = 10" | "?n = 12" | "?n = 13" | "?n = 34" | "?n = 92"
      | "?n < 32" "?n \<notin> {8, 9, 10, 12, 13}" | "?n \<ge> 32" "?n \<noteq> 34" "?n \<noteq> 92"
      by fastforce
    then show ?thesis
    proof cases
      case 8
      then have "?n div 16 < 16" by simp
      then have "hexval (hexdigit (?n div 16)) = Some (?n div 16)"
        by (rule hexval_hexdigit)
      moreover have "hexval (hexdigit (?n mod 16)) = Some (?n mod 16)"
        by (rule hexval_hexdigit) simp
      ultimately have "hexval (hexdigit (?n div 16)) = Some (?n div 16)"
        "hexval (hexdigit (?n mod 16)) = Some (?n mod 16)"
        by simp_all
      with 8 have "dec (escapeChar c @ s) = (char_of (16 * (?n div 16) + ?n mod 16), s)"
        by (simp add: dec_def escapeChar_def Let_def)
      then show ?thesis by simp
    next
      case 9
      then have "c \<noteq> CHR 0x5C" by auto
      with 9 show ?thesis
        by (simp add: dec_def escapeChar_def Let_def)
    next
      case 6
      have "char_of (34 :: nat) = CHR 0x22"
        by (simp add: char_of_eq_iff)
      with c 6 show ?thesis
        by (simp add: dec_def escapeChar_def Let_def)
    next
      case 7
      have "char_of (92 :: nat) = CHR 0x5C"
        by (simp add: char_of_eq_iff)
      with c 7 show ?thesis
        by (simp add: dec_def escapeChar_def Let_def)
    qed (use c in \<open>simp_all add: dec_def escapeChar_def Let_def\<close>)
  qed
  from assms have "dec (escapeChar a @ r) = dec (escapeChar b @ r')"
    by simp
  then show ?thesis
    by (simp only: dec prod.inject)
qed

lemma escapeChar_hd: "\<exists>h t. escapeChar c = h # t \<and> h \<noteq> CHR 0x22"
  by (auto simp: escapeChar_def Let_def)

lemma quoted_body_prefix:
  "concat (map escapeChar a) @ CHR 0x22 # r = concat (map escapeChar b) @ CHR 0x22 # r'
     \<Longrightarrow> a = b \<and> r = r'"
proof (induction a arbitrary: b)
  case Nil
  show ?case
  proof (cases b)
    case Nil
    with Nil.prems show ?thesis by simp
  next
    case (Cons y b')
    obtain h t where "escapeChar y = h # t" "h \<noteq> CHR 0x22"
      using escapeChar_hd by blast
    with Nil.prems Cons show ?thesis by simp
  qed
next
  case (Cons x a)
  show ?case
  proof (cases b)
    case Nil
    obtain h t where "escapeChar x = h # t" "h \<noteq> CHR 0x22"
      using escapeChar_hd by blast
    with Cons.prems Nil show ?thesis by simp
  next
    case (Cons y b')
    with Cons.prems
    have "escapeChar x @ (concat (map escapeChar a) @ CHR 0x22 # r)
        = escapeChar y @ (concat (map escapeChar b') @ CHR 0x22 # r')"
      by simp
    then have "x = y \<and> concat (map escapeChar a) @ CHR 0x22 # r = concat (map escapeChar b') @ CHR 0x22 # r'"
      by (rule escapeChar_prefix)
    with Cons.IH [of b'] Cons show ?thesis
      by simp
  qed
qed

lemma quoteJSON_prefix: "quoteJSON a @ r = quoteJSON b @ r' \<Longrightarrow> a = b \<and> r = r'"
  using quoted_body_prefix [of a r b r'] by (simp add: quoteJSON_def)


lemma stringify_four_inj:
  assumes "stringify [(k1, v1), (k2, v2), (k3, v3), (k4, v4)]
         = stringify [(k1, w1), (k2, w2), (k3, w3), (k4, v4)]"
  shows "v1 = w1 \<and> v2 = w2 \<and> v3 = w3"
proof -
  let ?tail = "\<lambda>a b. '','' @ quoteJSON k3 @ '':'' @ quoteJSON a @ '','' @ quoteJSON k4 @ '':'' @ quoteJSON b @ ''}''"
  from assms
  have "quoteJSON v1 @ ('','' @ quoteJSON k2 @ '':'' @ quoteJSON v2 @ ?tail v3 v4)
      = quoteJSON w1 @ ('','' @ quoteJSON k2 @ '':'' @ quoteJSON w2 @ ?tail w3 v4)"
    by (simp add: stringify_def)
  then have 1: "v1 = w1"
    and "'','' @ quoteJSON k2 @ '':'' @ quoteJSON v2 @ ?tail v3 v4
       = '','' @ quoteJSON k2 @ '':'' @ quoteJSON w2 @ ?tail w3 v4"
    using quoteJSON_prefix by blast+
  then have "quoteJSON v2 @ ?tail v3 v4 = quoteJSON w2 @ ?tail w3 v4"
    by simp
  then have 2: "v2 = w2" and "?tail v3 v4 = ?tail w3 v4"
    using quoteJSON_prefix by blast+
  then have "quoteJSON v3 @ ('','' @ quoteJSON k4 @ '':'' @ quoteJSON v4 @ ''}'')
      = quoteJSON w3 @ ('','' @ quoteJSON k4 @ '':'' @ quoteJSON v4 @ ''}'')"
    by simp
  then have 3: "v3 = w3"
    using quoteJSON_prefix by blast
  from 1 2 3 show ?thesis by simp
qed

lemma escapeChar_hexdigit: "n < 16 \<Longrightarrow> escapeChar (hexdigit n) = [hexdigit n]"
  using lt16_cases [of n] by (auto simp: escapeChar_def hexdigit_def Let_def)

lemma hexdigit_lower: "n < 16 \<Longrightarrow> hexdigit n \<in> set ''0123456789abcdef''"
  using lt16_cases [of n] by (auto simp: hexdigit_def)

lemma bytesToHex_digits: "c \<in> set (bytesToHex h) \<Longrightarrow> \<exists>n<16. c = hexdigit n"
proof (induction h)
  case Nil
  then show ?case by (simp add: bytesToHex_Nil)
next
  case (Cons b h)
  have hi: "unat b div 16 < 16"
    using unat_byte_less [of b] by simp
  have lo: "unat b mod 16 < 16"
    by simp
  from Cons.prems consider "c = hexdigit (unat b div 16)" | "c = hexdigit (unat b mod 16)"
    | "c \<in> set (bytesToHex h)"
    by (auto simp: bytesToHex_Cons)
  then show ?case
  proof cases
    case 1
    with hi show ?thesis by blast
  next
    case 2
    with lo show ?thesis by blast
  next
    case 3
    then show ?thesis by (rule Cons.IH)
  qed
qed

lemma quoteJSON_plain: "\<forall>c\<in>set s. escapeChar c = [c] \<Longrightarrow> quoteJSON s = CHR 0x22 # s @ [CHR 0x22]"
  by (induction s) (simp_all add: quoteJSON_def)

lemma quoteJSON_bytesToHex: "quoteJSON (bytesToHex h) = CHR 0x22 # bytesToHex h @ [CHR 0x22]"
  using bytesToHex_digits escapeChar_hexdigit by (intro quoteJSON_plain) blast

lemma quoteJSON_keys:
  "quoteJSON ''documentHash'' = CHR 0x22 # ''documentHash'' @ [CHR 0x22]"
  "quoteJSON ''email'' = CHR 0x22 # ''email'' @ [CHR 0x22]"
  "quoteJSON ''timestamp'' = CHR 0x22 # ''timestamp'' @ [CHR 0x22]"
  "quoteJSON ''version'' = CHR 0x22 # ''version'' @ [CHR 0x22]"
  "quoteJSON ''ots-sign-v1'' = CHR 0x22 # ''ots-sign-v1'' @ [CHR 0x22]"
  by (simp_all add: quoteJSON_def escapeChar_def)

text \<open>
  C4: \<open>createSigningMessage\<close> returns the UTF-8 encoding of the record with the fields
  \<open>documentHash\<close> (in lower-case hexadecimal digits), \<open>email\<close> (lower-cased and
  trimmed), \<open>timestamp\<close> (as given) and \<open>version\<close> (\<open>ots-sign-v1\<close>), in this order;
  and two calls return the same bytes exactly when the document hashes, the normalised
  emails and the timestamps are the same.
\<close>

theorem createSigningMessage_canonical:
  "createSigningMessage h e t =
     encode (CHR ''{'' # CHR 0x22 # ''documentHash'' @ [CHR 0x22, CHR '':'', CHR 0x22] @ bytesToHex h
       @ [CHR 0x22, CHR '','', CHR 0x22] @ ''email'' @ [CHR 0x22, CHR '':''] @ quoteJSON (trim (toLowerCase e))
       @ [CHR '','', CHR 0x22] @ ''timestamp'' @ [CHR 0x22, CHR '':''] @ quoteJSON t
       @ [CHR '','', CHR 0x22] @ ''version'' @ [CHR 0x22, CHR '':'', CHR 0x22] @ ''ots-sign-v1''
       @ [CHR 0x22, CHR ''}''])
   \<and> set (bytesToHex h) \<subseteq> set ''0123456789abcdef''
   \<and> (createSigningMessage h e t = createSigningMessage h' e' t'
        \<longleftrightarrow> h = h' \<and> trim (toLowerCase e) = trim (toLowerCase e') \<and> t = t')"
proof (intro conjI)
  show "createSigningMessage h e t =
     encode (CHR ''{'' # CHR 0x22 # ''documentHash'' @ [CHR 0x22, CHR '':'', CHR 0x22] @ bytesToHex h
       @ [CHR 0x22, CHR '','', CHR 0x22] @ ''email'' @ [CHR 0x22, CHR '':''] @ quoteJSON (trim (toLowerCase e))
       @ [CHR '','', CHR 0x22] @ ''timestamp'' @ [CHR 0x22, CHR '':''] @ quoteJSON t
       @ [CHR '','', CHR 0x22] @ ''version'' @ [CHR 0x22, CHR '':'', CHR 0x22] @ ''ots-sign-v1''
       @ [CHR 0x22, CHR ''}''])"
    by (simp add: createSigningMessage_def stringify_def quoteJSON_keys quoteJSON_bytesToHex)
next
  show "set (bytesToHex h) \<subseteq> set ''0123456789abcdef''"
    using bytesToHex_digits hexdigit_lower by blast
next
  show "createSigningMessage h e t = createSigningMessage h' e' t'
        \<longleftrightarrow> h = h' \<and> trim (toLowerCase e) = trim (toLowerCase e') \<and> t = t'"
  proof
    assume "createSigningMessage h e t = createSigningMessage h' e' t'"
    then have "stringify [(''documentHash'', bytesToHex h), (''email'', trim (toLowerCase e)),
          (''timestamp'', t), (''version'', ''ots-sign-v1'')]
        = stringify [(''documentHash'', bytesToHex h'), (''email'', trim (toLowerCase e')),
          (''timestamp'', t'), (''version'', ''ots-sign-v1'')]"
      by (simp only: createSigningMessage_def Let_def) (rule encode_inj)
    then have "bytesToHex h = bytesToHex h' \<and> trim (toLowerCase e) = trim (toLowerCase e') \<and> t = t'"
      by (rule stringify_four_inj)
    then show "h = h' \<and> trim (toLowerCase e) = trim (toLowerCase e') \<and> t = t'"
      by (auto dest: bytesToHex_inj)
  next
    assume "h = h' \<and> trim (toLowerCase e) = trim (toLowerCase e') \<and> t = t'"
    then show "createSigningMessage h e t = createSigningMessage h' e' t'"
      by (simp add: createSigningMessage_def)
  qed
qed

theorem createSigningMessage_canonical_witness:
  "createSigningMessage [0xAB, 0x01] '' Alice@Example.COM '' ''2024-01-02T00:00:00.000Z''
     = createSigningMessage [0xAB, 0x01] ''alice@example.com'' ''2024-01-02T00:00:00.000Z''
   \<and> createSigningMessage [0xAB, 0x01] ''alice@example.com'' ''2024-01-02T00:00:00.000Z''
     \<noteq> createSigningMessage [0xAB, 0x01] ''alice@example.com'' ''2024-01-02T00:00:00.001Z''"
proof -
  have "trim (toLowerCase '' Alice@Example.COM '') = trim (toLowerCase ''alice@example.com'')"
    by (simp add: trim_def toLowerCase_def lowerChar_def isWhiteSpace_def char_of_eq_iff)
  moreover have "''2024-01-02T00:00:00.000Z'' \<noteq> ''2024-01-02T00:00:00.001Z''"
    by simp
  ultimately show ?thesis
    using createSigningMessage_canonical [of "[0xAB, 0x01]" "'' Alice@Example.COM ''"
        "''2024-01-02T00:00:00.000Z''" "[0xAB, 0x01]" "''alice@example.com''" "''2024-01-02T00:00:00.000Z''"]
      createSigningMessage_canonical [of "[0xAB, 0x01]" "''alice@example.com''"
        "''2024-01-02T00:00:00.000Z''" "[0xAB, 0x01]" "''alice@example.com''" "''2024-01-02T00:00:00.001Z''"]
    by blast
qed


end
